theory Spec2Isabelle
  imports Complex_Main "HOL-Library.Word"
begin

section \<open>JavaScript values\<close>

text \<open>
  The part of the JavaScript value space that the encoder of \<open>lib/util.js\<close> inspects.
  Numbers are kept as exact rationals; no claim below depends on rounding.
  A \<open>Buffer\<close> carries its bytes, a \<open>Blob\<close> its \<open>type\<close> (always a string, empty when
  the creator gave none) and its bytes.  Every other object carries its own enumerable
  properties in key order, and the observations that \<open>isPlainObject\<close> makes of it.
\<close>

type_synonym byte = "8 word"

text \<open>
  What \<open>isPlainObject\<close> reads of the \<open>constructor\<close> property owned by an object's
  prototype: \<open>typeof Ctor == "function"\<close>, \<open>Ctor instanceof Ctor\<close>, and the text
  \<open>Function.prototype.toString.call(Ctor)\<close>.
\<close>

record js_ctor =
  is_function :: bool
  instanceof_self :: bool
  fn_source :: string

text \<open>
  What \<open>isPlainObject\<close> reads of an object: \<open>String(value)\<close>, and
  \<open>Object.getPrototypeOf(value)\<close>, which is null (\<open>Proto_null\<close>) or an object that
  may own a \<open>constructor\<close> property.  \<open>String(value)\<close> converts the object to a
  primitive by calling its \<open>toString\<close> method, then its \<open>valueOf\<close> method; when the
  object has neither of its own and inherits neither, the conversion throws a
  \<open>TypeError\<close>, and \<open>to_string\<close> is \<open>None\<close>.
\<close>

datatype js_proto = Proto_null | Proto "js_ctor option"

record js_meta =
  to_string :: "string option"
  proto :: js_proto

datatype js_value =
    VUndefined
  | VNull
  | VBool bool
  | VNumber rat
  | VString string
  | VBuffer "byte list"
  | VBlob string "byte list"
  | VArray "js_value list"
  | VObject js_meta "(string \<times> js_value) list"

text \<open>
  What the functions below throw: the platform's \<open>TypeError\<close> with its message, the
  size-limit error of \<open>transformFileInputs\<close> with the byte count it reports,
  \<open>Invalid prediction\<close>, \<open>Prediction failed\<close> with the job's error,
  \<open>Invalid model version identifier\<close>, and whatever a network call or a callback
  threw, with its message.
\<close>

datatype js_error =
    TypeError string
  | SizeLimitError nat
  | InvalidPrediction
  | PredictionFailed string
  | InvalidIdentifier
  | ExternalError string

text \<open>The base \<open>Object\<close> constructor, and the metadata of an object literal \<open>{}\<close>.\<close>

definition Object_source :: string where
  "Object_source = ''function Object() { [native code] }''"

definition Object_ctor :: js_ctor where
  "Object_ctor = \<lparr>is_function = True, instanceof_self = True, fn_source = Object_source\<rparr>"

definition literal_meta :: js_meta where
  "literal_meta =
     \<lparr>to_string = Some ''[object Object]'', proto = Proto (Some Object_ctor)\<rparr>"

text \<open>
  \<open>Object.create(null)\<close>: no prototype, so no \<open>toString\<close> and no \<open>valueOf\<close>.  And
  \<open>Object.create(Object.create(null))\<close>: a prototype that owns no \<open>constructor\<close>, and
  again no method to convert with.
\<close>

definition null_proto_meta :: js_meta where
  "null_proto_meta = \<lparr>to_string = None, proto = Proto_null\<rparr>"

definition bare_proto_meta :: js_meta where
  "bare_proto_meta = \<lparr>to_string = None, proto = Proto None\<rparr>"

text \<open>
  Instances of a class: the prototype owns a \<open>constructor\<close>, the class, which is a
  function, is not an instance of itself, and prints as its own source.
\<close>

definition class_ctor :: "string \<Rightarrow> js_ctor" where
  "class_ctor name =
     \<lparr>is_function = True, instanceof_self = False,
      fn_source = ''function '' @ name @ ''() { [native code] }''\<rparr>"

definition Map_meta :: js_meta where
  "Map_meta = \<lparr>to_string = Some ''[object Map]'', proto = Proto (Some (class_ctor ''Map''))\<rparr>"

definition Set_meta :: js_meta where
  "Set_meta = \<lparr>to_string = Some ''[object Set]'', proto = Proto (Some (class_ctor ''Set''))\<rparr>"

definition Date_meta :: "string \<Rightarrow> js_meta" where
  "Date_meta shown = \<lparr>to_string = Some shown, proto = Proto (Some (class_ctor ''Date''))\<rparr>"

definition instance_meta :: "string \<Rightarrow> js_meta" where
  "instance_meta name =
     \<lparr>to_string = Some ''[object Object]'', proto = Proto (Some (class_ctor name))\<rparr>"

section \<open>The encoder: \<open>isPlainObject\<close>, \<open>transform\<close>, \<open>transformFileInputs\<close>\<close>

text \<open>
  \<open>isPlainObject\<close>, check by check.  Primitives fail \<open>typeof value == "object"\<close> or
  \<open>value !== null\<close> before \<open>String(value)\<close> is evaluated.  A Buffer converts to its
  bytes read as text and a Blob to \<open>[object Blob]\<close>; both have a prototype that owns a
  constructor (\<open>Buffer\<close>, \<open>Blob\<close>) that is not an instance of itself, so for them the
  last conjunction is false.  \<open>transform\<close> never asks about an array.
\<close>

fun isPlainObject :: "js_value \<Rightarrow> js_error + bool" where
  "isPlainObject (VObject m props) =
     (case to_string m of
        None \<Rightarrow> Inl (TypeError ''Cannot convert object to primitive value'')
      | Some shown \<Rightarrow>
          if shown \<noteq> ''[object Object]'' then Inr False
          else
            (case proto m of
               Proto_null \<Rightarrow> Inr True
             | Proto None \<Rightarrow> Inr False
             | Proto (Some Ctor) \<Rightarrow>
                 Inr (is_function Ctor \<and> instanceof_self Ctor
                        \<and> fn_source Ctor = Object_source)))"
| "isPlainObject _ = Inr False"

fun Array_isArray :: "js_value \<Rightarrow> bool" where
  "Array_isArray (VArray _) = True"
| "Array_isArray _ = False"

fun Buffer_isBuffer :: "js_value \<Rightarrow> bool" where
  "Buffer_isBuffer (VBuffer _) = True"
| "Buffer_isBuffer _ = False"

fun instanceof_Blob :: "js_value \<Rightarrow> bool" where
  "instanceof_Blob (VBlob _ _) = True"
| "instanceof_Blob _ = False"

text \<open>\<open>copy[key] = v\<close> on an object: replace in place, or append a new key.\<close>

fun assign :: "(string \<times> 'v) list \<Rightarrow> string \<Rightarrow> 'v \<Rightarrow> (string \<times> 'v) list" where
  "assign [] key v = [(key, v)]"
| "assign ((k, w) # rest) key v =
     (if k = key then (k, v) # rest else (k, w) # assign rest key v)"

text \<open>
  \<open>transform(value, mapper)\<close>.  The mapper is an async closure with an effect on the
  state \<open>'s\<close> of its defining scope; awaiting it is sequencing.  A thrown error is
  \<open>Inl\<close> and ends the walk with the state reached so far.

  The array branch declares \<open>const copy = []\<close> and then, for each element, evaluates
  \<open>copy = await transform(val, mapper)\<close>: the right-hand side runs first (with its
  effects and its own errors), and the assignment to the constant binding then throws a
  \<open>TypeError\<close>.  The later elements are never visited.  Only the empty array reaches
  \<open>return copy\<close>.

  The object branch walks \<open>Object.keys(value)\<close> in order, reading \<open>value[key]\<close>; the
  property list of an object holds each key once, so this is a walk over the list.
\<close>

fun transform ::
    "js_value \<Rightarrow> (js_value \<Rightarrow> 's \<Rightarrow> (js_error + js_value) \<times> 's) \<Rightarrow> 's
       \<Rightarrow> (js_error + js_value) \<times> 's"
  and array_loop ::
    "js_value list \<Rightarrow> js_value list \<Rightarrow> (js_value \<Rightarrow> 's \<Rightarrow> (js_error + js_value) \<times> 's) \<Rightarrow> 's
       \<Rightarrow> (js_error + js_value) \<times> 's"
  and object_loop ::
    "(string \<times> js_value) list \<Rightarrow> (string \<times> js_value) list
       \<Rightarrow> (js_value \<Rightarrow> 's \<Rightarrow> (js_error + js_value) \<times> 's) \<Rightarrow> 's
       \<Rightarrow> (js_error + js_value) \<times> 's"
where
  "transform (VArray vals) mapper s = array_loop [] vals mapper s"
| "transform (VObject m props) mapper s =
     (case isPlainObject (VObject m props) of
        Inl e \<Rightarrow> (Inl e, s)
      | Inr plain \<Rightarrow>
          if plain then object_loop [] props mapper s
          else mapper (VObject m props) s)"
| "transform VUndefined mapper s = mapper VUndefined s"
| "transform VNull mapper s = mapper VNull s"
| "transform (VBool b) mapper s = mapper (VBool b) s"
| "transform (VNumber n) mapper s = mapper (VNumber n) s"
| "transform (VString t) mapper s = mapper (VString t) s"
| "transform (VBuffer bs) mapper s = mapper (VBuffer bs) s"
| "transform (VBlob ty bs) mapper s = mapper (VBlob ty bs) s"
| "array_loop copy [] mapper s = (Inr (VArray copy), s)"
| "array_loop copy (val # rest) mapper s =
     (case transform val mapper s of
        (Inl e, s') \<Rightarrow> (Inl e, s')
      | (Inr v, s') \<Rightarrow> (Inl (TypeError ''Assignment to constant variable.''), s'))"
| "object_loop copy [] mapper s = (Inr (VObject literal_meta copy), s)"
| "object_loop copy ((key, val) # rest) mapper s =
     (case transform val mapper s of
        (Inl e, s') \<Rightarrow> (Inl e, s')
      | (Inr v, s') \<Rightarrow> object_loop (assign copy key v) rest mapper s')"

text \<open>
  \<open>Buffer.prototype.toString("base64")\<close> is the platform's; it is the base64 of
  RFC 4648 with the standard alphabet and \<open>=\<close> padding.
\<close>

definition b64_alphabet :: string where
  "b64_alphabet = ''ABCDEFGHIJKLMNOPQRSTUVWXYZabcdefghijklmnopqrstuvwxyz0123456789+/''"

definition b64_char :: "nat \<Rightarrow> char" where
  "b64_char n = b64_alphabet ! (n mod 64)"

fun base64 :: "byte list \<Rightarrow> string" where
  "base64 [] = []"
| "base64 [a] =
     (let n = unat a
      in [b64_char (n div 4), b64_char (n mod 4 * 16), CHR ''='', CHR ''=''])"
| "base64 [a, b] =
     (let n = unat a * 256 + unat b
      in [b64_char (n div 1024), b64_char (n div 16), b64_char (n mod 16 * 4), CHR ''=''])"
| "base64 (a # b # c # rest) =
     (let n = unat a * 65536 + unat b * 256 + unat c
      in [b64_char (n div 262144), b64_char (n div 4096), b64_char (n div 64), b64_char n]
         @ base64 rest)"

definition MAX_DATA_URI_SIZE :: nat where
  "MAX_DATA_URI_SIZE = 10000000"

text \<open>
  The closure handed to \<open>transform\<close> by \<open>transformFileInputs\<close>; its state is the
  variable \<open>totalBytes\<close> of the enclosing call.  A Blob gives its \<open>type\<close> as \<open>mime\<close>
  and is read into a Buffer; \<open>mime ?? "application/octet-stream"\<close> replaces only an
  undefined \<open>mime\<close>, that of a Buffer.  The statement \<open>totalBytes = 0 + value.byteLength\<close>
  overwrites the variable.
\<close>

definition file_mapper :: "js_value \<Rightarrow> nat \<Rightarrow> (js_error + js_value) \<times> nat" where
  "file_mapper value totalBytes =
     (let (mime, value) =
            (case value of VBlob ty bs \<Rightarrow> (Some ty, VBuffer bs) | _ \<Rightarrow> (None, value))
      in case value of
           VBuffer bs \<Rightarrow>
             (let totalBytes = 0 + length bs
              in if totalBytes > MAX_DATA_URI_SIZE then (Inr VNull, totalBytes)
                 else
                   (let data = base64 bs;
                        mime = (case mime of None \<Rightarrow> ''application/octet-stream'' | Some t \<Rightarrow> t)
                    in (Inr (VString (''data:'' @ mime @ '';base64,'' @ data)), totalBytes)))
         | _ \<Rightarrow> (Inr value, totalBytes))"

definition transformFileInputs :: "js_value \<Rightarrow> js_error + js_value" where
  "transformFileInputs inputs =
     (case transform inputs file_mapper 0 of
        (Inl e, totalBytes) \<Rightarrow> Inl e
      | (Inr result, totalBytes) \<Rightarrow>
          if totalBytes > MAX_DATA_URI_SIZE then Inl (SizeLimitError totalBytes)
          else Inr result)"

text \<open>
  The tree that the specification describes for an input: the same containers, arrays
  position by position and objects key by key, with every Buffer and Blob replaced by
  its data URI (a Buffer under \<open>application/octet-stream\<close>, a Blob under its own
  \<open>type\<close>) and every other leaf left as it is.  The rebuilt object is a fresh object
  literal.
\<close>

fun spec_encoded :: "js_value \<Rightarrow> js_value" where
  "spec_encoded (VBuffer bs) =
     VString (''data:application/octet-stream;base64,'' @ base64 bs)"
| "spec_encoded (VBlob ty bs) = VString (''data:'' @ ty @ '';base64,'' @ base64 bs)"
| "spec_encoded (VArray vals) = VArray (map spec_encoded vals)"
| "spec_encoded (VObject m props) =
     (if isPlainObject (VObject m props) = Inr True
      then VObject literal_meta (map (\<lambda>(key, val). (key, spec_encoded val)) props)
      else VObject m props)"
| "spec_encoded v = v"

text \<open>
  The inputs on which the code and the specification are compared below: no array but
  the empty one, no object on which \<open>String(value)\<close> throws, keys that differ within
  each plain object, and no binary leaf above the ceiling.
\<close>

fun walkable :: "js_value \<Rightarrow> bool" where
  "walkable (VBuffer bs) = (length bs \<le> MAX_DATA_URI_SIZE)"
| "walkable (VBlob ty bs) = (length bs \<le> MAX_DATA_URI_SIZE)"
| "walkable (VArray vals) = (vals = [])"
| "walkable (VObject m props) =
     (case isPlainObject (VObject m props) of
        Inl e \<Rightarrow> False
      | Inr plain \<Rightarrow>
          if plain
          then distinct (map fst props) \<and> list_all (\<lambda>(key, val). walkable val) props
          else True)"
| "walkable v = True"

section \<open>The retry controller: \<open>withAutomaticRetries\<close>\<close>

text \<open>
  A \<open>Response\<close> as the controller reads it: \<open>response.ok\<close>, the status (for the
  caller's \<open>shouldRetry\<close>), and \<open>response.headers.get("Retry-After")\<close>, which is null
  or the header's value.  The Fetch API delivers every header as a string; the code
  also has a branch for a value that is a number, so both are representable.
\<close>

datatype header_value = HString string | HNumber rat

record response =
  ok :: bool
  http_status :: nat
  retry_after :: "header_value option"

datatype thrown = ApiError response | OtherError string

datatype attempt = Resolved response | Rejected thrown

text \<open>The \<open>options\<close> argument; an absent field is \<open>None\<close>.\<close>

record retry_options =
  opt_shouldRetry :: "(response \<Rightarrow> bool) option"
  opt_maxRetries :: "rat option"
  opt_interval :: "rat option"
  opt_jitter :: "rat option"

text \<open>
  What one call meets: the outcome of the \<open>k\<close>-th call of \<open>request()\<close>, the value of
  \<open>Math.random()\<close> and the clock \<open>new Date().getTime()\<close> in the \<open>k\<close>-th pass of the
  loop, and \<open>new Date(x).getTime()\<close> for a header value \<open>x\<close> (\<open>None\<close> when it is
  \<open>NaN\<close>; how a string is read as a date is the platform's).
\<close>

record retry_env =
  request :: "nat \<Rightarrow> attempt"
  random :: "nat \<Rightarrow> rat"
  clock :: "nat \<Rightarrow> int"
  date_time :: "header_value \<Rightarrow> int option"

text \<open>The argument of \<open>sleep\<close> may be \<open>NaN\<close>.\<close>

datatype js_number = Num rat | NaN

datatype retry_event = Request nat | Sleep js_number

text \<open>\<open>x || d\<close> for an optional number: undefined and \<open>0\<close> are falsy.\<close>

definition or_default :: "rat option \<Rightarrow> rat \<Rightarrow> rat" where
  "or_default x d = (case x of None \<Rightarrow> d | Some v \<Rightarrow> if v = 0 then d else v)"

definition shouldRetry :: "retry_options \<Rightarrow> response \<Rightarrow> bool" where
  "shouldRetry options =
     (case opt_shouldRetry options of None \<Rightarrow> (\<lambda>_. False) | Some f \<Rightarrow> f)"

definition maxRetries :: "retry_options \<Rightarrow> rat" where
  "maxRetries options = or_default (opt_maxRetries options) 5"

definition interval :: "retry_options \<Rightarrow> rat" where
  "interval options = or_default (opt_interval options) 500"

definition jitter :: "retry_options \<Rightarrow> rat" where
  "jitter options = or_default (opt_jitter options) 100"

text \<open>\<open>Number.isInteger\<close> of a number: it has no fractional part.\<close>

definition Number_isInteger :: "rat \<Rightarrow> bool" where
  "Number_isInteger x = (\<lfloor>x\<rfloor> = \<lceil>x\<rceil>)"

text \<open>\<open>Number.isInteger\<close> does not convert its argument: a string is never an integer.\<close>

fun header_isInteger :: "header_value \<Rightarrow> bool" where
  "header_isInteger (HString s) = False"
| "header_isInteger (HNumber x) = Number_isInteger x"

fun truthy :: "header_value \<Rightarrow> bool" where
  "truthy (HString s) = (s \<noteq> [])"
| "truthy (HNumber x) = (x \<noteq> 0)"

text \<open>\<open>retryAfter * 1000\<close>, reached only by a number.\<close>

fun times_1000 :: "header_value \<Rightarrow> rat" where
  "times_1000 (HNumber x) = x * 1000"
| "times_1000 (HString s) = 0"

text \<open>The provisional delay, first statement of the loop body.\<close>

definition provisional_delay :: "retry_options \<Rightarrow> nat \<Rightarrow> rat \<Rightarrow> rat" where
  "provisional_delay options attempts r =
     interval options * 2 ^ attempts + r * jitter options"

text \<open>
  The \<open>catch\<close> block: the value of \<open>delay\<close> after an error was caught in pass \<open>k\<close>.
  Every error is caught; only an \<open>ApiError\<close> is inspected.
\<close>

definition caught :: "retry_env \<Rightarrow> nat \<Rightarrow> thrown \<Rightarrow> rat \<Rightarrow> rat" where
  "caught E k error delay =
     (case error of
        OtherError _ \<Rightarrow> delay
      | ApiError resp \<Rightarrow>
          (case retry_after resp of
             None \<Rightarrow> delay
           | Some retryAfter \<Rightarrow>
               if truthy retryAfter then
                 if \<not> header_isInteger retryAfter then
                   (case date_time E retryAfter of
                      Some t \<Rightarrow> of_int (t - clock E k)
                    | None \<Rightarrow> delay)
                 else times_1000 retryAfter
               else delay))"

text \<open>
  The argument of the loop's \<open>sleep\<close>:
  \<open>interval * 2 ** (options.maxRetries - maxRetries)\<close>.  With \<open>options.maxRetries\<close>
  undefined the difference is \<open>NaN\<close>.  Otherwise it is an integer: \<open>0\<close> when the
  option is truthy (then \<open>maxRetries\<close> is the option), and \<open>-5\<close> when the option
  is \<open>0\<close>.
\<close>

definition sleep_argument :: "retry_options \<Rightarrow> js_number" where
  "sleep_argument options =
     (case opt_maxRetries options of
        None \<Rightarrow> NaN
      | Some m \<Rightarrow> Num (interval options * 2 powi \<lfloor>m - maxRetries options\<rfloor>))"

text \<open>
  The \<open>try\<close> statement of pass \<open>k\<close>: \<open>Inl\<close> is the response that the pass returns,
  \<open>Inr\<close> the value of \<open>delay\<close> with which the pass goes on.
\<close>

definition try_request :: "retry_env \<Rightarrow> retry_options \<Rightarrow> nat \<Rightarrow> rat \<Rightarrow> response + rat" where
  "try_request E options k delay =
     (case request E k of
        Resolved response \<Rightarrow>
          if ok response \<or> \<not> shouldRetry options response then Inl response
          else Inr delay
      | Rejected error \<Rightarrow> Inr (caught E k error delay))"

text \<open>
  The statement \<open>if (Number.isInteger(maxRetries) && maxRetries > 0) { ... }\<close> that
  ends the loop body: the sleep, if any, and the new value of \<open>attempts\<close>.
\<close>

definition back_off ::
  "retry_options \<Rightarrow> rat \<Rightarrow> nat \<Rightarrow> retry_event list \<Rightarrow> nat \<times> retry_event list" where
  "back_off options delay attempts trace =
     (if Number_isInteger (maxRetries options) \<and> maxRetries options > 0 then
        (attempts + 1,
         if Number_isInteger delay \<and> delay > 0
         then trace @ [Sleep (sleep_argument options)] else trace)
      else (attempts, trace))"

text \<open>
  The \<open>do ... while\<close> loop and the final \<open>return request()\<close>.  \<open>k\<close> counts the calls
  of \<open>request\<close> made so far, one per pass.  The loop need not end: \<open>attempts\<close> only
  grows when \<open>maxRetries\<close> is a positive integer.  Not returning is \<open>None\<close>.
\<close>

partial_function (option) retry_loop ::
  "retry_env \<Rightarrow> retry_options \<Rightarrow> nat \<Rightarrow> nat \<Rightarrow> retry_event list
     \<Rightarrow> (attempt \<times> retry_event list) option"
where
  "retry_loop E options attempts k trace =
     (let delay = provisional_delay options attempts (random E k)
      in case try_request E options k delay of
           Inl response \<Rightarrow> Some (Resolved response, trace @ [Request k])
         | Inr delay \<Rightarrow>
             (case back_off options delay attempts (trace @ [Request k]) of
                (attempts, trace) \<Rightarrow>
                  if of_nat attempts < maxRetries options
                  then retry_loop E options attempts (k + 1) trace
                  else Some (request E (k + 1), trace @ [Request (k + 1)])))"

declare retry_loop.simps [code]

definition withAutomaticRetries ::
  "retry_env \<Rightarrow> retry_options \<Rightarrow> (attempt \<times> retry_event list) option" where
  "withAutomaticRetries E options = retry_loop E options 0 0 []"

text \<open>The calls of \<open>request\<close> in a trace.\<close>

fun is_Request :: "retry_event \<Rightarrow> bool" where
  "is_Request (Request k) = True"
| "is_Request (Sleep d) = False"

definition requests :: "retry_event list \<Rightarrow> nat" where
  "requests trace = length (filter is_Request trace)"

text \<open>
  An attempt that the loop does not return from: it threw, or its response is not
  \<open>ok\<close> and \<open>shouldRetry\<close> holds of it.
\<close>

fun retryable :: "retry_options \<Rightarrow> attempt \<Rightarrow> bool" where
  "retryable options (Resolved response) =
     (\<not> (ok response \<or> \<not> shouldRetry options response))"
| "retryable options (Rejected thrown) = True"

section \<open>The pagination sequence: \<open>paginate\<close>\<close>

text \<open>
  A page as \<open>paginate\<close> reads it: \<open>response.results\<close> and \<open>response.next\<close>, null or
  absent (\<open>None\<close>) or a string.  \<open>if (response.next)\<close> is a truthiness test, which the
  empty string fails.
\<close>

record 'a page =
  results :: "'a list"
  "next" :: "string option"

text \<open>
  The endpoint of a call: the function the caller supplied, of which only the outcome of
  its one call matters, or the closure \<open>nextPage\<close> that \<open>paginate\<close> builds, a GET of
  \<open>response.next\<close> through \<open>this.request\<close>.
\<close>

datatype 'a endpoint = Supplied "js_error + 'a page" | NextPage string

datatype 'a page_event = Call_supplied | Get_page string | Yield "'a list"

text \<open>
  \<open>await endpoint()\<close>, the \<open>k\<close>-th call of an endpoint in this run: the outcome, and the
  event it leaves.  \<open>get k url\<close> is the service's answer to that GET.
\<close>

fun call_endpoint ::
  "(nat \<Rightarrow> string \<Rightarrow> js_error + 'a page) \<Rightarrow> nat \<Rightarrow> 'a endpoint
     \<Rightarrow> (js_error + 'a page) \<times> 'a page_event" where
  "call_endpoint get k (Supplied outcome) = (outcome, Call_supplied)"
| "call_endpoint get k (NextPage url) = (get k url, Get_page url)"

text \<open>
  The generator, run to its end by a consumer that takes every page: the trace of calls
  and yields, and the error if a call threw.  A chain of pages may have no end.
\<close>

partial_function (option) paginate ::
  "(nat \<Rightarrow> string \<Rightarrow> js_error + 'a page) \<Rightarrow> 'a endpoint \<Rightarrow> nat \<Rightarrow> 'a page_event list
     \<Rightarrow> (js_error option \<times> 'a page_event list) option"
where
  "paginate get endpoint k trace =
     (case call_endpoint get k endpoint of
        (Inl e, called) \<Rightarrow> Some (Some e, trace @ [called])
      | (Inr response, called) \<Rightarrow>
          (let trace = trace @ [called, Yield (results response)]
           in case next response of
                None \<Rightarrow> Some (None, trace)
              | Some url \<Rightarrow>
                  if url \<noteq> [] then paginate get (NextPage url) (k + 1) trace
                  else Some (None, trace)))"

declare paginate.simps [code]

fun yielded :: "'a page_event list \<Rightarrow> 'a list list" where
  "yielded [] = []"
| "yielded (Yield xs # trace) = xs # yielded trace"
| "yielded (_ # trace) = yielded trace"

fun fetched :: "'a page_event list \<Rightarrow> 'a page_event list" where
  "fetched [] = []"
| "fetched (Yield xs # trace) = fetched trace"
| "fetched (c # trace) = c # fetched trace"

text \<open>
  A chain of pages: \<open>p\<close> was the answer to call \<open>k\<close>; each page but the last carries a
  reference whose GET, the next call, answers with the next page, and the last page
  carries none.
\<close>

fun chain ::
  "(nat \<Rightarrow> string \<Rightarrow> js_error + 'a page) \<Rightarrow> nat \<Rightarrow> 'a page \<Rightarrow> 'a page list \<Rightarrow> bool" where
  "chain get k p [] = (next p = None)"
| "chain get k p (q # qs) =
     (case next p of
        None \<Rightarrow> False
      | Some url \<Rightarrow> url \<noteq> [] \<and> get (k + 1) url = Inr q \<and> chain get (k + 1) q qs)"

fun references :: "'a page list \<Rightarrow> string list" where
  "references [] = []"
| "references (p # ps) = (case next p of None \<Rightarrow> [] | Some url \<Rightarrow> [url]) @ references ps"

section \<open>The completion waiter and the run orchestrator: \<open>wait\<close>, \<open>run\<close>\<close>

text \<open>
  A prediction as \<open>wait\<close> and \<open>run\<close> read it.  \<open>id\<close> is falsy when undefined or empty.
\<close>

record prediction =
  prediction_id :: "string option"
  status :: string
  error :: string
  "output" :: string

datatype event =
    Create
  | Get string
  | Cancel "string option"
  | Sleep_ms rat
  | Progress prediction

fun is_Get :: "event \<Rightarrow> bool" where
  "is_Get (Get i) = True"
| "is_Get _ = False"

fun is_network :: "event \<Rightarrow> bool" where
  "is_network (Sleep_ms d) = False"
| "is_network (Progress p) = False"
| "is_network _ = True"

definition gets :: "event list \<Rightarrow> nat" where
  "gets trace = length (filter is_Get trace)"

text \<open>
  The remote service and the caller's signal, as one call meets them.  The resource
  accessors \<open>predictions.create\<close>, \<open>predictions.get\<close> and \<open>predictions.cancel\<close> are
  request wrappers: each is a network call that answers with a record or fails with a
  message.  \<open>get_answer k i\<close> answers the GET of \<open>i\<close> made after \<open>k\<close> earlier GETs;
  \<open>aborted k\<close> is \<open>signal.aborted\<close> as read after \<open>k\<close> GETs.
\<close>

record service =
  create_answer :: "string + prediction"
  get_answer :: "nat \<Rightarrow> string \<Rightarrow> string + prediction"
  cancel_answer :: "string option \<Rightarrow> string + prediction"
  aborted :: "nat \<Rightarrow> bool"

text \<open>
  The \<open>stop\<close> callback: given the latest record and the trace so far, it returns the
  events it causes and its result, \<open>Inl\<close> when it throws.  Only the result \<open>true\<close>
  stops the loop.
\<close>

type_synonym stop_callback = "prediction \<Rightarrow> event list \<Rightarrow> (string + bool) \<times> event list"

definition terminal :: "string \<Rightarrow> bool" where
  "terminal s = (s = ''succeeded'' \<or> s = ''failed'' \<or> s = ''canceled'')"

text \<open>The statements after the loop of \<open>wait\<close>.\<close>

definition after_loop :: "prediction \<Rightarrow> js_error + prediction" where
  "after_loop updatedPrediction =
     (if status updatedPrediction = ''failed''
      then Inl (PredictionFailed (error updatedPrediction))
      else Inr updatedPrediction)"

text \<open>The \<open>while\<close> loop of \<open>wait\<close>; a job that never ends is polled for ever.\<close>

partial_function (option) wait_loop ::
  "service \<Rightarrow> stop_callback option \<Rightarrow> rat \<Rightarrow> string \<Rightarrow> prediction \<Rightarrow> event list
     \<Rightarrow> ((js_error + prediction) \<times> event list) option"
where
  "wait_loop S stop ms i updatedPrediction trace =
     (if status updatedPrediction \<noteq> ''succeeded''
         \<and> status updatedPrediction \<noteq> ''failed''
         \<and> status updatedPrediction \<noteq> ''canceled''
      then
        (case (case stop of
                 None \<Rightarrow> (Inr False, [])
               | Some f \<Rightarrow> f updatedPrediction trace) of
           (Inl msg, caused) \<Rightarrow> Some (Inl (ExternalError msg), trace @ caused)
         | (Inr stopped, caused) \<Rightarrow>
             if stopped = True then Some (after_loop updatedPrediction, trace @ caused)
             else
               (let trace = trace @ caused @ [Sleep_ms ms]
                in case get_answer S (gets trace) i of
                     Inl msg \<Rightarrow> Some (Inl (ExternalError msg), trace @ [Get i])
                   | Inr p \<Rightarrow> wait_loop S stop ms i p (trace @ [Get i])))
      else Some (after_loop updatedPrediction, trace))"

declare wait_loop.simps [code]

text \<open>
  \<open>wait(prediction, options, stop)\<close>; \<open>opt_ms\<close> is \<open>options.interval\<close> when \<open>options\<close>
  has one.
\<close>

definition wait ::
  "service \<Rightarrow> prediction \<Rightarrow> rat option \<Rightarrow> stop_callback option \<Rightarrow> event list
     \<Rightarrow> ((js_error + prediction) \<times> event list) option" where
  "wait S prediction opt_ms stop trace =
     (case prediction_id prediction of
        None \<Rightarrow> Some (Inl InvalidPrediction, trace)
      | Some i \<Rightarrow>
          if i = [] then Some (Inl InvalidPrediction, trace)
          else if status prediction = ''succeeded''
                  \<or> status prediction = ''failed''
                  \<or> status prediction = ''canceled''
          then Some (Inr prediction, trace)
          else
            (let ms = or_default opt_ms 500
             in case get_answer S (gets trace) i of
                  Inl msg \<Rightarrow> Some (Inl (ExternalError msg), trace @ [Get i])
                | Inr updatedPrediction \<Rightarrow>
                    wait_loop S stop ms i updatedPrediction (trace @ [Get i])))"

text \<open>
  The parsed reference, as \<open>run\<close> reads it (\<open>ModelVersionIdentifier.parse\<close> is not part
  of this development).
\<close>

record model_identifier =
  owner :: "string option"
  name :: "string option"
  version :: "string option"

definition nonempty :: "string option \<Rightarrow> bool" where
  "nonempty x = (case x of None \<Rightarrow> False | Some s \<Rightarrow> s \<noteq> [])"

text \<open>
  The closure that \<open>run\<close> hands to \<open>wait\<close>.  \<open>progress\<close> and \<open>signal\<close> say whether the
  caller gave a progress callback and an \<open>AbortSignal\<close>.
\<close>

definition run_stop :: "service \<Rightarrow> bool \<Rightarrow> bool \<Rightarrow> stop_callback" where
  "run_stop S progress signal updatedPrediction trace =
     (let caused = (if progress then [Progress updatedPrediction] else [])
      in if signal \<and> aborted S (gets trace) then
           (case cancel_answer S (prediction_id updatedPrediction) of
              Inl msg \<Rightarrow> (Inl msg, caused @ [Cancel (prediction_id updatedPrediction)])
            | Inr _ \<Rightarrow> (Inr True, caused @ [Cancel (prediction_id updatedPrediction)]))
         else (Inr False, caused))"

definition run ::
  "service \<Rightarrow> model_identifier \<Rightarrow> rat option \<Rightarrow> bool \<Rightarrow> bool
     \<Rightarrow> ((js_error + string) \<times> event list) option" where
  "run S ident opt_ms signal progress =
     (if nonempty (version ident) \<or> (nonempty (owner ident) \<and> nonempty (name ident)) then
        (case create_answer S of
           Inl msg \<Rightarrow> Some (Inl (ExternalError msg), [Create])
         | Inr created \<Rightarrow>
             (let trace = [Create] @ (if progress then [Progress created] else [])
              in case wait S created opt_ms (Some (run_stop S progress signal)) trace of
                   None \<Rightarrow> None
                 | Some (Inl e, trace) \<Rightarrow> Some (Inl e, trace)
                 | Some (Inr final, trace) \<Rightarrow>
                     (let trace = trace @ (if progress then [Progress final] else [])
                      in if status final = ''failed''
                         then Some (Inl (PredictionFailed (error final)), trace)
                         else Some (Inr (output final), trace))))
      else Some (Inl InvalidIdentifier, []))"

text \<open>
  What \<open>wait\<close> returns when the stop callback of \<open>run\<close> has asked for the
  cancellation while \<open>p\<close> was the latest record.
\<close>

definition stopped_result :: "service \<Rightarrow> prediction \<Rightarrow> js_error + string" where
  "stopped_result S p =
     (case cancel_answer S (prediction_id p) of
        Inl msg \<Rightarrow> Inl (ExternalError msg)
      | Inr _ \<Rightarrow> Inr (output p))"

text \<open>
  A \<open>Prediction failed\<close> error out of the loop: some GET made during the call, for the
  job \<open>i\<close>, was answered with a record in status \<open>failed\<close> that carries the error.
\<close>

definition failed_was_fetched ::
  "nat \<Rightarrow> string \<Rightarrow> service \<Rightarrow> string \<Rightarrow> event list \<Rightarrow> bool" where
  "failed_was_fetched g e S i trace' =
     (\<exists>k p. g \<le> k \<and> k < gets trace' \<and> get_answer S k i = Inr p
        \<and> status p = ''failed'' \<and> error p = e)"

section \<open>Example inputs\<close>

text \<open>A request that always answers 500, under the retry predicate of a GET.\<close>

definition r500 :: response where
  "r500 = \<lparr>ok = False, http_status = 500, retry_after = None\<rparr>"

definition always_500 :: "rat \<Rightarrow> retry_env" where
  "always_500 r =
     \<lparr>request = (\<lambda>k. Resolved r500), random = (\<lambda>k. r), clock = (\<lambda>k. 0),
      date_time = (\<lambda>x. None)\<rparr>"

definition three_retries :: retry_options where
  "three_retries =
     \<lparr>opt_shouldRetry = Some (\<lambda>response. http_status response = 429 \<or> http_status response \<ge> 500),
      opt_maxRetries = Some 3, opt_interval = Some 500, opt_jitter = Some 100\<rparr>"

definition no_options :: retry_options where
  "no_options =
     \<lparr>opt_shouldRetry = Some (\<lambda>response. http_status response = 429 \<or> http_status response \<ge> 500),
      opt_maxRetries = None, opt_interval = None, opt_jitter = None\<rparr>"

text \<open>A 429 response whose \<open>Retry-After\<close> header is the value given.\<close>

definition r429 :: "header_value \<Rightarrow> response" where
  "r429 x = \<lparr>ok = False, http_status = 429, retry_after = Some x\<rparr>"

text \<open>Three chained pages: \<open>[a,b]\<close>, then \<open>[c]\<close> at \<open>next1\<close>, then \<open>[d,e]\<close> at \<open>next2\<close>.\<close>

definition page1 :: "string page" where
  "page1 = \<lparr>results = [''a'', ''b''], next = Some ''next1''\<rparr>"

definition page2 :: "string page" where
  "page2 = \<lparr>results = [''c''], next = Some ''next2''\<rparr>"

definition page3 :: "string page" where
  "page3 = \<lparr>results = [''d'', ''e''], next = None\<rparr>"

definition three_pages :: "nat \<Rightarrow> string \<Rightarrow> js_error + string page" where
  "three_pages k url =
     (if url = ''next1'' then Inr page2
      else if url = ''next2'' then Inr page3
      else Inl (ExternalError ''not found''))"

text \<open>
  A job \<open>p1\<close> in the status given, and a service on which it stays in \<open>processing\<close>
  while the caller's signal is found aborted from the second poll tick on.
\<close>

definition job :: "string \<Rightarrow> prediction" where
  "job s = \<lparr>prediction_id = Some ''p1'', status = s, error = ''boom'', output = ''out''\<rparr>"

definition slow_service :: service where
  "slow_service =
     \<lparr>create_answer = Inr (job ''starting''),
      get_answer = (\<lambda>k i. Inr (job ''processing'')),
      cancel_answer = (\<lambda>i. Inr (job ''canceled'')),
      aborted = (\<lambda>k. 2 \<le> k)\<rparr>"

definition failing_service :: service where
  "failing_service =
     \<lparr>create_answer = Inr (job ''starting''),
      get_answer = (\<lambda>k i. Inr (job ''failed'')),
      cancel_answer = (\<lambda>i. Inr (job ''canceled'')),
      aborted = (\<lambda>k. False)\<rparr>"

definition by_version :: model_identifier where
  "by_version = \<lparr>owner = None, name = None, version = Some ''v1''\<rparr>"

section \<open>The encoder: results\<close>

lemma file_mapper_leaf:
  "\<not> Buffer_isBuffer v \<Longrightarrow> \<not> instanceof_Blob v \<Longrightarrow> file_mapper v t = (Inr v, t)"
  by (cases v) (simp_all add: file_mapper_def)

lemma transform_leaf:
  "\<not> Array_isArray v \<Longrightarrow> isPlainObject v = Inr False
     \<Longrightarrow> transform v mapper s = mapper v s"
  by (cases v) simp_all

lemma isPlainObject_proto:
  assumes "isPlainObject v = Inr True"
  shows "\<exists>m props. v = VObject m props \<and> to_string m = Some ''[object Object]''
           \<and> (proto m = Proto_null \<or> proto m = Proto (Some Object_ctor))"
  using assms
  by (cases v) (auto simp: Object_ctor_def split: if_splits js_proto.splits option.splits)

text \<open>
  Where \<open>isPlainObject\<close> gives an answer, the traversal is as intended: what it accepts
  is an object with a null prototype or the base \<open>Object\<close> constructor; what it rejects,
  an array apart, goes to the leaf transformer as it is, and the leaf transformer of
  \<open>transformFileInputs\<close> returns it unchanged, with \<open>totalBytes\<close> unchanged, when it is
  neither a Buffer nor a Blob.  A \<open>Map\<close>, a \<open>Set\<close>, a \<open>Date\<close> and an instance of a
  class are rejected.
\<close>

lemma transform_leaf_dispatch:
  "(\<not> Array_isArray v \<and> isPlainObject v = Inr False \<longrightarrow>
      transform v mapper s = mapper v s
      \<and> (\<not> Buffer_isBuffer v \<and> \<not> instanceof_Blob v \<longrightarrow>
           transform v file_mapper t = (Inr v, t)))
   \<and> (isPlainObject v = Inr True \<longrightarrow>
        (\<exists>m props. v = VObject m props
           \<and> (proto m = Proto_null \<or> proto m = Proto (Some Object_ctor))))
   \<and> isPlainObject (VObject Map_meta props) = Inr False
   \<and> isPlainObject (VObject Set_meta props) = Inr False
   \<and> isPlainObject (VObject (Date_meta shown) props) = Inr False
   \<and> isPlainObject (VObject (instance_meta cls) props) = Inr False
   \<and> isPlainObject (VObject literal_meta props) = Inr True"
proof -
  have "isPlainObject v = Inr True \<longrightarrow>
        (\<exists>m props. v = VObject m props
           \<and> (proto m = Proto_null \<or> proto m = Proto (Some Object_ctor)))"
    using isPlainObject_proto[of v] by blast
  then show ?thesis
    by (simp add: transform_leaf file_mapper_leaf Map_meta_def Set_meta_def Date_meta_def
        instance_meta_def class_ctor_def literal_meta_def Object_ctor_def)
qed

text \<open>
  On a tree with no array but the empty one, with no object on which \<open>String(value)\<close>
  throws and with no binary leaf above the ceiling, \<open>transformFileInputs\<close> returns the
  tree that the specification describes, whatever the leaves add up to.
\<close>

lemma assign_fresh: "key \<notin> fst ` set copy \<Longrightarrow> assign copy key v = copy @ [(key, v)]"
  by (induction copy) auto

lemma transform_walkable:
  "walkable v \<Longrightarrow> t \<le> MAX_DATA_URI_SIZE
     \<Longrightarrow> \<exists>t'. transform v file_mapper t = (Inr (spec_encoded v), t')
            \<and> t' \<le> MAX_DATA_URI_SIZE"
  and "vals = [] \<Longrightarrow> array_loop acopy vals file_mapper t = (Inr (VArray acopy), t)"
  and "list_all (\<lambda>(key, val). walkable val) props
     \<Longrightarrow> distinct (map fst copy @ map fst props)
     \<Longrightarrow> t \<le> MAX_DATA_URI_SIZE
     \<Longrightarrow> \<exists>t'. object_loop copy props file_mapper t
            = (Inr (VObject literal_meta
                     (copy @ map (\<lambda>(key, val). (key, spec_encoded val)) props)), t')
          \<and> t' \<le> MAX_DATA_URI_SIZE"
proof (induction v file_mapper t and acopy vals file_mapper t and copy props file_mapper t
        rule: transform_array_loop_object_loop.induct)
  case (2 m props s)
  then show ?case
    by (cases "isPlainObject (VObject m props)")
       (auto simp: file_mapper_def split: if_splits)
next
  case (13 copy key val rest s)
  from "13.prems"(1) have w: "walkable val"
    and ws: "list_all (\<lambda>(key, val). walkable val) rest"
    by simp_all
  from "13.hyps"(1)[OF w "13.prems"(3)] obtain t1 where
    t1: "transform val file_mapper s = (Inr (spec_encoded val), t1)"
        "t1 \<le> MAX_DATA_URI_SIZE"
    by blast
  from "13.prems"(2) have fresh: "key \<notin> fst ` set copy" by auto
  from "13.prems"(2)
  have d: "distinct (map fst (assign copy key (spec_encoded val)) @ map fst rest)"
    by (simp add: assign_fresh[OF fresh])
  from "13.hyps"(2)[OF t1(1)[symmetric] refl ws d t1(2)] t1(1)
  show ?case by (simp add: assign_fresh[OF fresh])
qed (auto simp: file_mapper_def Let_def)

lemma transformFileInputs_walkable:
  "walkable v \<Longrightarrow> transformFileInputs v = Inr (spec_encoded v)"
  using transform_walkable(1)[of v 0]
  by (auto simp: transformFileInputs_def)

text \<open>
  Claim C1.  The claim: for every input tree within the ceiling, \<open>transformFileInputs\<close>
  returns a structurally identical tree, arrays rebuilt positionally with the same
  length.  The code: an array with at least one element makes the call fail with a
  \<open>TypeError\<close>, at the top level as well as below an object key, whatever the size of
  the binary leaves.  The two inputs are \<open>["a"]\<close> and \<open>{images: [<01 02 03>]}\<close>.
\<close>

theorem transformFileInputs_array_throws:
  "transformFileInputs (VArray [VString ''a''])
     = Inl (TypeError ''Assignment to constant variable.'')
   \<and> transformFileInputs (VObject literal_meta [(''images'', VArray [VBuffer [1, 2, 3]])])
     = Inl (TypeError ''Assignment to constant variable.'')
   \<and> (\<forall>val rest. \<exists>e. transformFileInputs (VArray (val # rest)) = Inl e)"
proof -
  have "\<exists>e. transformFileInputs (VArray (val # rest)) = Inl e" for val rest
    by (cases "transform val file_mapper 0")
       (auto simp: transformFileInputs_def split: sum.splits)
  then show ?thesis
    by (simp add: transformFileInputs_def file_mapper_def literal_meta_def Object_ctor_def
        MAX_DATA_URI_SIZE_def)
qed

text \<open>
  Claim C2.  The claim: the running total is accumulated over all binary leaves, and a
  tree whose leaves together exceed 10,000,000 bytes fails with a size-limit error, never
  returning a partly encoded tree.  The code: \<open>totalBytes\<close> holds the size of the last
  binary leaf only.  Two Buffers of 6,000,000 bytes each (12,000,000 together) are both
  encoded and returned without an error; a Buffer of 10,000,001 bytes followed by a
  Buffer of one byte gives back a tree whose first leaf is \<open>null\<close> and whose second is
  encoded, without an error.
\<close>

theorem transformFileInputs_total_is_last_leaf:
  "transformFileInputs (VObject literal_meta
       [(''a'', VBuffer (replicate 6000000 0)), (''b'', VBuffer (replicate 6000000 0))])
     = Inr (VObject literal_meta
       [(''a'', VString (''data:application/octet-stream;base64,''
                          @ base64 (replicate 6000000 0))),
        (''b'', VString (''data:application/octet-stream;base64,''
                          @ base64 (replicate 6000000 0)))])
   \<and> transformFileInputs (VObject literal_meta
       [(''a'', VBuffer (replicate 10000001 0)), (''b'', VBuffer [0])])
     = Inr (VObject literal_meta
       [(''a'', VNull), (''b'', VString ''data:application/octet-stream;base64,AA=='')])"
  by (simp add: transformFileInputs_def file_mapper_def literal_meta_def Object_ctor_def
      MAX_DATA_URI_SIZE_def b64_char_def b64_alphabet_def)

text \<open>
  Claim C10.  The claim: plain objects, with a null prototype or the base \<open>Object\<close>
  constructor, are containers, and every other value that is not an array is a leaf,
  handed to the leaf transformer and returned unchanged unless it is a Buffer or a Blob.
  The code: \<open>isPlainObject\<close> evaluates \<open>String(value)\<close> before it looks at the
  prototype, and that conversion throws on an object with no \<open>toString\<close> and no
  \<open>valueOf\<close>.  So \<open>Object.create(null)\<close> with a key \<open>a\<close>, an object with a null
  prototype, is not walked as a container: the call fails with a \<open>TypeError\<close>.  And
  \<open>Object.create(Object.create(null))\<close>, which is no plain object, is not handed to the
  leaf transformer: the call fails the same way.  A \<open>Map\<close> does pass through unchanged.
\<close>

theorem transformFileInputs_null_prototype_throws:
  "transformFileInputs (VObject null_proto_meta [(''a'', VNumber 1)])
     = Inl (TypeError ''Cannot convert object to primitive value'')
   \<and> transformFileInputs (VObject bare_proto_meta [])
     = Inl (TypeError ''Cannot convert object to primitive value'')
   \<and> transformFileInputs (VObject literal_meta [(''m'', VObject Map_meta [])])
     = Inr (VObject literal_meta [(''m'', VObject Map_meta [])])"
  by (simp add: transformFileInputs_def file_mapper_def null_proto_meta_def
      bare_proto_meta_def literal_meta_def Map_meta_def Object_ctor_def
      MAX_DATA_URI_SIZE_def)

section \<open>The retry controller: results\<close>

lemma requests_append [simp]: "requests (xs @ ys) = requests xs + requests ys"
  by (simp add: requests_def)

lemma requests_Nil [simp]: "requests [] = 0"
  by (simp add: requests_def)

lemma requests_Cons [simp]:
  "requests (x # xs) = (if is_Request x then 1 else 0) + requests xs"
  by (simp add: requests_def)

lemma try_request_Inl:
  "try_request E options k delay = Inl response
     \<Longrightarrow> \<not> retryable options (Resolved response)"
  by (auto simp: try_request_def split: attempt.splits if_splits)

lemma retryable_try_request:
  "retryable options (request E k) \<Longrightarrow> \<exists>d. try_request E options k delay = Inr d"
  by (cases "request E k") (auto simp: try_request_def)

lemma back_off_bounds:
  "back_off options delay attempts trace = (attempts', trace')
     \<Longrightarrow> requests trace' = requests trace \<and> attempts' \<le> attempts + 1"
  by (auto simp: back_off_def split: if_splits)

lemma Number_isInteger_floor: "Number_isInteger x \<Longrightarrow> of_int \<lfloor>x\<rfloor> = x"
  unfolding Number_isInteger_def
  by (metis antisym floor_le_ceiling le_of_int_ceiling of_int_floor_le)

lemma back_off_counts:
  "Number_isInteger (maxRetries options) \<Longrightarrow> 0 < maxRetries options
     \<Longrightarrow> fst (back_off options delay attempts trace) = attempts + 1"
  by (simp add: back_off_def)

text \<open>
  A call that ends with a retryable outcome has left the loop by exhaustion: the
  outcome is that of the last call of \<open>request\<close>, and there were enough calls.
\<close>

lemma retry_loop_bound:
  assumes run: "retry_loop E options attempts k trace = Some y"
    and fails: "retryable options (fst y)"
    and inv: "requests trace = k \<and> attempts \<le> k"
  shows "maxRetries options + 1 \<le> of_nat (requests (snd y))
           \<and> fst y = request E (requests (snd y) - 1)"
proof -
  let ?P = "\<lambda>E options attempts k trace y.
      retryable options (fst y) \<longrightarrow> requests trace = k \<and> attempts \<le> k
        \<longrightarrow> maxRetries options + 1 \<le> of_nat (requests (snd y))
           \<and> fst y = request E (requests (snd y) - 1)"
  have "?P E options attempts k trace y"
  proof (rule retry_loop.raw_induct[where P = ?P, OF _ run], intro impI)
    fix rl E options attempts k trace y
    assume IH: "\<And>E options attempts k trace y.
                 rl E options attempts k trace = Some y \<Longrightarrow> ?P E options attempts k trace y"
      and body: "(let delay = provisional_delay options attempts (random E k)
      in case try_request E options k delay of
           Inl response \<Rightarrow> Some (Resolved response, trace @ [Request k])
         | Inr delay \<Rightarrow>
             (case back_off options delay attempts (trace @ [Request k]) of
                (attempts, trace) \<Rightarrow>
                  if of_nat attempts < maxRetries options
                  then rl E options attempts (k + 1) trace
                  else Some (request E (k + 1), trace @ [Request (k + 1)]))) = Some y"
      and fails: "retryable options (fst y)"
      and inv: "requests trace = k \<and> attempts \<le> k"
    let ?delay = "provisional_delay options attempts (random E k)"
    show "maxRetries options + 1 \<le> of_nat (requests (snd y))
           \<and> fst y = request E (requests (snd y) - 1)"
    proof (cases "try_request E options k ?delay")
      case (Inl response)
      with body have "y = (Resolved response, trace @ [Request k])" by (simp add: Let_def)
      with try_request_Inl[OF Inl] fails show ?thesis by simp
    next
      case (Inr d)
      obtain att tr where bo: "back_off options d attempts (trace @ [Request k]) = (att, tr)"
        by (cases "back_off options d attempts (trace @ [Request k])") auto
      from back_off_bounds[OF bo] inv have inv': "requests tr = k + 1 \<and> att \<le> k + 1" by simp
      from body Inr bo
      have body': "(if of_nat att < maxRetries options then rl E options att (k + 1) tr
                    else Some (request E (k + 1), tr @ [Request (k + 1)])) = Some y"
        by (simp add: Let_def)
      show ?thesis
      proof (cases "of_nat att < maxRetries options")
        case True
        with body' have "rl E options att (k + 1) tr = Some y" by simp
        from IH[OF this] fails inv' show ?thesis by blast
      next
        case False
        with body' have y: "y = (request E (k + 1), tr @ [Request (k + 1)])" by simp
        have "maxRetries options \<le> of_nat att" using False by simp
        also have "\<dots> \<le> of_nat (k + 1)" using inv' by (simp only: of_nat_le_iff)
        finally have "maxRetries options + 1 \<le> of_nat (k + 2)" by simp
        then show ?thesis using y inv' by simp
      qed
    qed
  qed
  with fails inv show ?thesis by blast
qed

text \<open>
  With a positive integer \<open>maxRetries\<close> and retryable outcomes throughout, the loop
  ends, and the call returns the outcome of call number \<open>maxRetries\<close>, counted from 0.
\<close>

lemma retry_loop_exhausts:
  assumes int: "Number_isInteger (maxRetries options)" and pos: "0 < maxRetries options"
    and all: "\<forall>j. k \<le> j \<and> of_nat j < maxRetries options \<longrightarrow> retryable options (request E j)"
    and lt: "of_nat k < maxRetries options"
    and rq: "requests trace = k"
  shows "\<exists>trace'. retry_loop E options k k trace
            = Some (request E (nat \<lfloor>maxRetries options\<rfloor>), trace')
          \<and> requests trace' = nat \<lfloor>maxRetries options\<rfloor> + 1"
  using all lt rq
proof (induction "nat \<lfloor>maxRetries options\<rfloor> - k" arbitrary: k trace)
  case 0
  from int have "of_int \<lfloor>maxRetries options\<rfloor> = maxRetries options"
    by (rule Number_isInteger_floor)
  with "0.prems"(2) have "int k < \<lfloor>maxRetries options\<rfloor>"
    by (metis of_int_less_iff of_int_of_nat_eq)
  with "0.hyps" show ?case by simp
next
  case (Suc d)
  let ?N = "nat \<lfloor>maxRetries options\<rfloor>"
  from pos have "0 \<le> \<lfloor>maxRetries options\<rfloor>" by simp
  with Number_isInteger_floor[OF int] have N: "of_nat ?N = maxRetries options"
    by simp
  from Suc.prems have rt: "retryable options (request E k)" by simp
  let ?delay = "provisional_delay options k (random E k)"
  from retryable_try_request[OF rt] obtain dl where
    tr: "try_request E options k ?delay = Inr dl" by blast
  obtain att tr' where bo: "back_off options dl k (trace @ [Request k]) = (att, tr')"
    by (cases "back_off options dl k (trace @ [Request k])") auto
  from back_off_counts[OF int pos, of dl k "trace @ [Request k]"] bo
  have att: "att = k + 1" by simp
  from back_off_bounds[OF bo] Suc.prems(3) have rq': "requests tr' = k + 1" by simp
  have step: "retry_loop E options k k trace =
     (if of_nat (k + 1) < maxRetries options
         then retry_loop E options (k + 1) (k + 1) tr'
         else Some (request E (k + 1), tr' @ [Request (k + 1)]))"
    using tr bo att by (subst retry_loop.simps) (simp add: Let_def)
  show ?case
  proof (cases "of_nat (k + 1) < maxRetries options")
    case True
    have "d = ?N - (k + 1)" using Suc.hyps(2) by simp
    moreover have "\<forall>j. k + 1 \<le> j \<and> of_nat j < maxRetries options
                     \<longrightarrow> retryable options (request E j)"
      using Suc.prems(1) by simp
    ultimately have "\<exists>trace'. retry_loop E options (k + 1) (k + 1) tr'
            = Some (request E ?N, trace') \<and> requests trace' = ?N + 1"
      using True rq' by (intro Suc.hyps(1))
    with step True show ?thesis by simp
  next
    case False
    then have "maxRetries options \<le> of_nat (k + 1)" by simp
    with N have "?N \<le> k + 1" by (metis of_nat_le_iff)
    moreover from Suc.prems(2) N have "k < ?N" by (metis of_nat_less_iff)
    ultimately have "?N = k + 1" by simp
    with step False rq' show ?thesis by simp
  qed
qed

text \<open>
  Claim C3.  The claim: an attempt that is followed by a retry, with no server directive,
  is followed by a sleep of the provisional delay, skipped only when that delay is at
  most 0.  The code: the argument of \<open>sleep\<close> is
  \<open>interval * 2 ** (options.maxRetries - maxRetries)\<close>, not \<open>delay\<close>, and \<open>delay\<close> only
  decides whether to sleep, which needs it to be an integer.  With \<open>maxRetries\<close> 3,
  \<open>interval\<close> 500 and \<open>jitter\<close> 100, a request that always answers 500 and a random
  draw of 0.5 each time, the delays computed are 550, 1050 and 2050 and the sleeps are
  500 each; with a draw of 0.123 the delay is 512.3 and there is no sleep at all; with no
  option given the argument of every sleep is \<open>NaN\<close>.
\<close>

theorem withAutomaticRetries_sleep_is_not_the_delay:
  "provisional_delay three_retries 0 (1 / 2) = 550
   \<and> provisional_delay three_retries 1 (1 / 2) = 1050
   \<and> provisional_delay three_retries 2 (1 / 2) = 2050
   \<and> withAutomaticRetries (always_500 (1 / 2)) three_retries
     = Some (Resolved r500,
         [Request 0, Sleep (Num 500), Request 1, Sleep (Num 500), Request 2,
          Sleep (Num 500), Request 3])
   \<and> provisional_delay three_retries 0 (123 / 1000) = 5123 / 10
   \<and> withAutomaticRetries (always_500 (123 / 1000)) three_retries
     = Some (Resolved r500, [Request 0, Request 1, Request 2, Request 3])
   \<and> withAutomaticRetries (always_500 (1 / 2)) no_options
     = Some (Resolved r500,
         [Request 0, Sleep NaN, Request 1, Sleep NaN, Request 2, Sleep NaN, Request 3,
          Sleep NaN, Request 4, Sleep NaN, Request 5])"
  by code_simp

text \<open>
  Claim C4.  The claim: a \<open>Retry-After\<close> value that parses as an integer number of
  seconds sets the delay to that many seconds, and one that parses as an HTTP date to
  that time minus now.  The code: the header value \<open>"120"\<close> is a string, which
  \<open>Number.isInteger\<close> rejects, so it is read as a date: the delay becomes that date minus
  now when the platform makes a date of \<open>"120"\<close>, and stays the provisional delay
  otherwise; it is never 120000 by way of the seconds branch.  Only a value that is
  already a number reaches \<open>retryAfter * 1000\<close>.
\<close>

theorem caught_reads_seconds_as_date:
  "caught E k (ApiError (r429 (HString ''120''))) delay
     = (case date_time E (HString ''120'') of
          Some t \<Rightarrow> of_int (t - clock E k)
        | None \<Rightarrow> delay)
   \<and> caught (always_500 (1 / 2)) 0 (ApiError (r429 (HString ''120''))) 550 = 550
   \<and> caught E k (ApiError (r429 (HNumber 120))) delay = 120000"
  by (simp add: caught_def r429_def always_500_def Number_isInteger_def)

text \<open>
  Claim C5.  A call of \<open>withAutomaticRetries\<close> that ends in failure (the outcome it
  hands back is a thrown error, or a response that is not \<open>ok\<close> and that \<open>shouldRetry\<close>
  accepts) has made at least \<open>maxRetries + 1\<close> calls of \<open>request\<close>, and the outcome is
  that of the last call, as it came.  When \<open>maxRetries\<close> is a positive integer and the
  first \<open>maxRetries\<close> attempts are all retried, the call ends after exactly
  \<open>maxRetries + 1\<close> attempts with the outcome of the last one, whatever \<open>shouldRetry\<close>
  says of it.
\<close>

theorem withAutomaticRetries_attempts:
  "(withAutomaticRetries E options = Some (outcome, trace) \<and> retryable options outcome
      \<longrightarrow> maxRetries options + 1 \<le> of_nat (requests trace)
          \<and> outcome = request E (requests trace - 1))
   \<and> (Number_isInteger (maxRetries options) \<and> 0 < maxRetries options
        \<and> (\<forall>k. of_nat k < maxRetries options \<longrightarrow> retryable options (request E k))
      \<longrightarrow> (\<exists>trace. withAutomaticRetries E options
                     = Some (request E (nat \<lfloor>maxRetries options\<rfloor>), trace)
                 \<and> of_nat (requests trace) = maxRetries options + 1))"
proof (intro conjI impI)
  assume a: "withAutomaticRetries E options = Some (outcome, trace) \<and> retryable options outcome"
  then have "retry_loop E options 0 0 [] = Some (outcome, trace)"
    by (simp add: withAutomaticRetries_def)
  from retry_loop_bound[OF this] a
  show "maxRetries options + 1 \<le> of_nat (requests trace)" 
    and "outcome = request E (requests trace - 1)"
    by simp_all
next
  assume a: "Number_isInteger (maxRetries options) \<and> 0 < maxRetries options
        \<and> (\<forall>k. of_nat k < maxRetries options \<longrightarrow> retryable options (request E k))"
  then have int: "Number_isInteger (maxRetries options)" and pos: "0 < maxRetries options"
    by simp_all
  from pos have "0 \<le> \<lfloor>maxRetries options\<rfloor>" by simp
  with Number_isInteger_floor[OF int]
  have N: "of_nat (nat \<lfloor>maxRetries options\<rfloor>) = maxRetries options"
    by simp
  from a have "\<forall>j. 0 \<le> j \<and> of_nat j < maxRetries options
                 \<longrightarrow> retryable options (request E j)"
    by simp
  from retry_loop_exhausts[OF int pos this, of "[]"] pos N
  show "\<exists>trace. withAutomaticRetries E options
                     = Some (request E (nat \<lfloor>maxRetries options\<rfloor>), trace)
                 \<and> of_nat (requests trace) = maxRetries options + 1"
    by (auto simp: withAutomaticRetries_def)
qed

theorem withAutomaticRetries_attempts_witness:
  "maxRetries three_retries + 1
     \<le> of_nat (requests [Request 0, Sleep (Num 500), Request 1, Sleep (Num 500),
                        Request 2, Sleep (Num 500), Request 3])
   \<and> (\<exists>trace. withAutomaticRetries (always_500 (1 / 2)) three_retries
         = Some (Resolved r500, trace) \<and> requests trace = 4)"
proof -
  let ?E = "always_500 (1 / 2)"
  let ?trace = "[Request 0, Sleep (Num 500), Request 1, Sleep (Num 500), Request 2,
                 Sleep (Num 500), Request 3]"
  note attempts = withAutomaticRetries_attempts [of ?E three_retries "Resolved r500" ?trace]
  have run: "withAutomaticRetries ?E three_retries = Some (Resolved r500, ?trace)"
    by code_simp
  have rt: "retryable three_retries (Resolved r500)"
    by (simp add: three_retries_def r500_def shouldRetry_def)
  have m: "maxRetries three_retries = 3"
    by (simp add: maxRetries_def three_retries_def or_default_def)
  have all: "\<forall>k. of_nat k < maxRetries three_retries
               \<longrightarrow> retryable three_retries (request ?E k)"
    by (simp add: always_500_def three_retries_def r500_def shouldRetry_def)
  have int: "Number_isInteger (maxRetries three_retries)" and pos: "0 < maxRetries three_retries"
    by (simp_all add: m Number_isInteger_def)
  from attempts run rt
  have bound: "maxRetries three_retries + 1 \<le> of_nat (requests ?trace)"
    by blast
  from attempts int pos all
  have "\<exists>trace. withAutomaticRetries ?E three_retries
                   = Some (request ?E (nat \<lfloor>maxRetries three_retries\<rfloor>), trace)
               \<and> of_nat (requests trace) = maxRetries three_retries + 1"
    by blast
  then obtain trace where
    "withAutomaticRetries ?E three_retries = Some (request ?E 3, trace)"
    and "rat_of_nat (requests trace) = 4"
    by (auto simp: m)
  then have "withAutomaticRetries ?E three_retries = Some (Resolved r500, trace)"
    and "requests trace = 4"
    by (simp_all add: always_500_def)
  with bound show ?thesis by blast
qed

section \<open>The pagination sequence: results\<close>

lemma yielded_append [simp]: "yielded (xs @ ys) = yielded xs @ yielded ys"
  by (induction xs rule: yielded.induct) simp_all

lemma fetched_append [simp]: "fetched (xs @ ys) = fetched xs @ fetched ys"
  by (induction xs rule: fetched.induct) simp_all

lemma call_endpoint_event:
  "call_endpoint get k endpoint = (outcome, called)
     \<Longrightarrow> yielded (called # xs) = yielded xs \<and> fetched (called # xs) = called # fetched xs"
  by (cases endpoint) auto

lemma references_length: "chain get k p ps \<Longrightarrow> length (references (p # ps)) = length ps"
proof (induction ps arbitrary: k p)
  case Nil
  then show ?case by simp
next
  case (Cons q qs)
  then obtain url where "next p = Some url" "chain get (k + 1) q qs"
    by (auto split: option.splits)
  with Cons.IH[of "k + 1" q] show ?case by simp
qed

lemma paginate_chain:
  assumes "chain get k p ps"
    and "call_endpoint get k endpoint = (Inr p, called)"
  shows "\<exists>trace'. paginate get endpoint k trace = Some (None, trace')
           \<and> yielded trace' = yielded trace @ map results (p # ps)
           \<and> fetched trace' = fetched trace @ called # map Get_page (references (p # ps))
           \<and> last trace' = Yield (results (last (p # ps)))"
  using assms
proof (induction ps arbitrary: k p endpoint called trace)
  case Nil
  then have "next p = None" by simp
  with Nil.prems(2) call_endpoint_event[OF Nil.prems(2)] show ?case
    by (subst paginate.simps) (simp add: Let_def)
next
  case (Cons q qs)
  from Cons.prems(1) obtain url where
    url: "next p = Some url" "url \<noteq> []" "get (k + 1) url = Inr q" "chain get (k + 1) q qs"
    by (auto split: option.splits)
  let ?tr = "trace @ [called, Yield (results p)]"
  have step: "paginate get endpoint k trace = paginate get (NextPage url) (k + 1) ?tr"
    using Cons.prems(2) url by (subst paginate.simps) (simp add: Let_def)
  have "call_endpoint get (k + 1) (NextPage url) = (Inr q, Get_page url)"
    using url by simp
  from Cons.IH[OF url(4) this, of ?tr] obtain trace' where
    rec: "paginate get (NextPage url) (k + 1) ?tr = Some (None, trace')"
    and ys: "yielded trace' = yielded ?tr @ map results (q # qs)"
    and fs: "fetched trace' = fetched ?tr @ Get_page url # map Get_page (references (q # qs))"
    and ls: "last trace' = Yield (results (last (q # qs)))"
    by blast
  from call_endpoint_event[OF Cons.prems(2)] ys fs ls url step rec show ?case
    by simp
qed

text \<open>
  Claim C6.  For every chain of pages that ends in a page with no next reference, where
  the supplied endpoint answers with the first page, \<open>paginate\<close> ends without an error,
  yields exactly the \<open>results\<close> of the pages in chain order, and makes one call per page:
  the supplied endpoint, then one GET per reference, and none after the last page, whose
  yield is the last event.
\<close>

theorem paginate_yields_chain:
  "chain get 0 p ps \<Longrightarrow>
   \<exists>trace. paginate get (Supplied (Inr p)) 0 [] = Some (None, trace)
     \<and> yielded trace = map results (p # ps)
     \<and> fetched trace = Call_supplied # map Get_page (references (p # ps))
     \<and> length (fetched trace) = length (p # ps)
     \<and> last trace = Yield (results (last (p # ps)))"
proof -
  assume c: "chain get 0 p ps"
  have "call_endpoint get 0 (Supplied (Inr p)) = (Inr p, Call_supplied)" by simp
  from paginate_chain[OF c this, of "[]"] references_length[OF c] show ?thesis
    by auto
qed

theorem paginate_yields_chain_witness:
  "\<exists>trace. paginate three_pages (Supplied (Inr page1)) 0 [] = Some (None, trace)
     \<and> yielded trace = [''a'', ''b''] # [''c''] # [''d'', ''e''] # []
     \<and> fetched trace = [Call_supplied, Get_page ''next1'', Get_page ''next2'']
     \<and> last trace = Yield [''d'', ''e'']"
proof -
  have "chain three_pages 0 page1 [page2, page3]"
    by (simp add: three_pages_def page1_def page2_def page3_def)
  from paginate_yields_chain[OF this] obtain trace where
    "paginate three_pages (Supplied (Inr page1)) 0 [] = Some (None, trace)"
    and "yielded trace = map results [page1, page2, page3]"
    and "fetched trace = Call_supplied # map Get_page (references [page1, page2, page3])"
    and "last trace = Yield (results (last [page1, page2, page3]))"
    by blast
  then show ?thesis
    by (intro exI[of _ trace]) (simp add: page1_def page2_def page3_def)
qed

section \<open>The completion waiter and the run orchestrator: results\<close>

lemma gets_append [simp]: "gets (xs @ ys) = gets xs + gets ys"
  by (simp add: gets_def)

lemma gets_Nil [simp]: "gets [] = 0"
  by (simp add: gets_def)

lemma gets_Cons [simp]: "gets (x # xs) = (if is_Get x then 1 else 0) + gets xs"
  by (simp add: gets_def)

lemma wait_terminal:
  "prediction_id prediction = Some i \<Longrightarrow> i \<noteq> [] \<Longrightarrow> terminal (status prediction)
     \<Longrightarrow> wait S prediction opt_ms stop trace = Some (Inr prediction, trace)"
  by (auto simp: wait_def terminal_def)

lemma wait_loop_failed:
  assumes run: "wait_loop S stop ms i upd trace = Some y"
    and res: "fst y = Inl (PredictionFailed e)"
    and inv: "\<exists>k. g \<le> k \<and> k < gets trace \<and> get_answer S k i = Inr upd"
  shows "failed_was_fetched g e S i (snd y)"
proof -
  let ?P = "\<lambda>S (stop :: stop_callback option) (ms :: rat) i upd trace y.
      fst y = Inl (PredictionFailed e)
        \<longrightarrow> (\<exists>k. g \<le> k \<and> k < gets trace \<and> get_answer S k i = Inr upd)
        \<longrightarrow> failed_was_fetched g e S i (snd y)"
  have "?P S stop ms i upd trace y"
  proof (rule wait_loop.raw_induct[where P = ?P, OF _ run], intro impI)
    fix wl S stop ms i upd trace y
    assume IH: "\<And>S stop ms i upd trace y.
                  wl S stop ms i upd trace = Some y \<Longrightarrow> ?P S stop ms i upd trace y"
      and body: "(if status upd \<noteq> ''succeeded'' \<and> status upd \<noteq> ''failed''
                    \<and> status upd \<noteq> ''canceled''
         then
           (case (case stop of None \<Rightarrow> (Inr False, []) | Some f \<Rightarrow> f upd trace) of
              (Inl msg, caused) \<Rightarrow> Some (Inl (ExternalError msg), trace @ caused)
            | (Inr stopped, caused) \<Rightarrow>
                if stopped = True then Some (after_loop upd, trace @ caused)
                else
                  (let trace = trace @ caused @ [Sleep_ms ms]
                   in case get_answer S (gets trace) i of
                        Inl msg \<Rightarrow> Some (Inl (ExternalError msg), trace @ [Get i])
                      | Inr p \<Rightarrow> wl S stop ms i p (trace @ [Get i])))
         else Some (after_loop upd, trace)) = Some y"
      and res: "fst y = Inl (PredictionFailed e)"
      and inv: "\<exists>k. g \<le> k \<and> k < gets trace \<and> get_answer S k i = Inr upd"
    show "failed_was_fetched g e S i (snd y)"
    proof (cases "terminal (status upd)")
      case True
      with body res inv show ?thesis
        by (auto simp: terminal_def after_loop_def failed_was_fetched_def split: if_splits)
    next
      case False
      obtain r caused where
        st: "(case stop of None \<Rightarrow> (Inr False, []) | Some f \<Rightarrow> f upd trace) = (r, caused)"
        by (cases "case stop of None \<Rightarrow> (Inr False, []) | Some f \<Rightarrow> f upd trace") auto
      show ?thesis
      proof (cases r)
        case (Inl msg)
        with body res False st show ?thesis by (auto simp add: terminal_def)
      next
        case (Inr stopped)
        show ?thesis
        proof (cases stopped)
          case True
          with body res inv False st Inr show ?thesis
            by (auto simp: terminal_def after_loop_def failed_was_fetched_def split: if_splits)
        next
          case nstop: False
          let ?tr = "trace @ caused @ [Sleep_ms ms]"
          show ?thesis
          proof (cases "get_answer S (gets ?tr) i")
            case (Inl msg)
            with body res False st Inr nstop show ?thesis
              by (auto simp add: terminal_def Let_def)
          next
            case (Inr p)
            from body False st \<open>r = Inr stopped\<close> nstop Inr
            have rec: "wl S stop ms i p (?tr @ [Get i]) = Some y"
              by (simp add: terminal_def Let_def)
            from inv obtain k where k: "g \<le> k" "k < gets trace" by blast
            have "\<exists>k. g \<le> k \<and> k < gets (?tr @ [Get i]) \<and> get_answer S k i = Inr p"
              using k Inr by (intro exI[of _ "gets ?tr"]) auto
            with IH[OF rec] res show ?thesis by blast
          qed
        qed
      qed
    qed
  qed
  with res inv show ?thesis by blast
qed

text \<open>
  Claim C7.  A record with a non-empty \<open>id\<close> and a terminal status (\<open>succeeded\<close>,
  \<open>failed\<close> or \<open>canceled\<close>) is returned by \<open>wait\<close> as it is, and the trace of the call
  is the trace it started with: no network call, no sleep, no call of \<open>stop\<close>.
\<close>

theorem wait_returns_terminal_record:
  "prediction_id prediction = Some i \<Longrightarrow> i \<noteq> [] \<Longrightarrow> terminal (status prediction)
     \<Longrightarrow> wait S prediction opt_ms stop trace = Some (Inr prediction, trace)"
  by (rule wait_terminal)

theorem wait_returns_terminal_record_witness:
  "wait slow_service (job ''succeeded'') None None [] = Some (Inr (job ''succeeded''), [])
   \<and> wait slow_service (job ''canceled'') (Some 100) (Some (run_stop slow_service True True)) []
       = Some (Inr (job ''canceled''), [])"
  using wait_returns_terminal_record [of "job ''succeeded''" "''p1''" slow_service None None "[]"]
        wait_returns_terminal_record [of "job ''canceled''" "''p1''" slow_service "Some 100"
           "Some (run_stop slow_service True True)" "[]"]
  by (simp add: job_def terminal_def)

text \<open>
  Claim C9.  A record that already has status \<open>failed\<close>, and a non-empty \<open>id\<close>, is
  returned by \<open>wait\<close> without an error and without any effect.  When \<open>wait\<close> does raise
  \<open>Prediction failed\<close>, a GET of the record's \<open>id\<close> made during this call was answered
  with a record in status \<open>failed\<close>, whose error the exception carries.
\<close>

theorem wait_raises_only_for_fetched_failure:
  "(prediction_id prediction = Some i \<and> i \<noteq> [] \<and> status prediction = ''failed''
      \<longrightarrow> wait S prediction opt_ms stop trace = Some (Inr prediction, trace))
   \<and> (wait S prediction opt_ms stop trace = Some (Inl (PredictionFailed e), trace')
      \<longrightarrow> (\<exists>i k p. prediction_id prediction = Some i \<and> gets trace \<le> k \<and> k < gets trace'
             \<and> get_answer S k i = Inr p \<and> status p = ''failed'' \<and> error p = e))"
proof (intro conjI impI)
  assume "prediction_id prediction = Some i \<and> i \<noteq> [] \<and> status prediction = ''failed''"
  then show "wait S prediction opt_ms stop trace = Some (Inr prediction, trace)"
    by (simp add: wait_terminal terminal_def)
next
  assume w: "wait S prediction opt_ms stop trace = Some (Inl (PredictionFailed e), trace')"
  then obtain i where i: "prediction_id prediction = Some i" "i \<noteq> []"
    by (cases "prediction_id prediction") (auto simp: wait_def split: if_splits)
  from w i have nt: "\<not> terminal (status prediction)"
    by (auto simp: wait_def terminal_def)
  from w i nt obtain upd where
    upd: "get_answer S (gets trace) i = Inr upd"
    and loop: "wait_loop S stop (or_default opt_ms 500) i upd (trace @ [Get i])
                 = Some (Inl (PredictionFailed e), trace')"
    by (cases "get_answer S (gets trace) i") (auto simp: wait_def terminal_def Let_def)
  have "\<exists>k. gets trace \<le> k \<and> k < gets (trace @ [Get i]) \<and> get_answer S k i = Inr upd"
    using upd by (intro exI[of _ "gets trace"]) simp
  from wait_loop_failed[OF loop _ this, of e] i
  show "\<exists>i k p. prediction_id prediction = Some i \<and> gets trace \<le> k \<and> k < gets trace'
             \<and> get_answer S k i = Inr p \<and> status p = ''failed'' \<and> error p = e"
    by (auto simp: failed_was_fetched_def)
qed

theorem wait_raises_only_for_fetched_failure_witness:
  "wait failing_service (job ''failed'') None None [] = Some (Inr (job ''failed''), [])
   \<and> wait failing_service (job ''starting'') None None []
       = Some (Inl (PredictionFailed ''boom''), [Get ''p1''])
   \<and> (\<exists>i k p. prediction_id (job ''starting'') = Some i \<and> k < gets [Get ''p1'']
         \<and> get_answer failing_service k i = Inr p \<and> status p = ''failed''
         \<and> error p = ''boom'')"
proof -
  note c9 = wait_raises_only_for_fetched_failure
  have raised: "wait failing_service (job ''starting'') None None []
       = Some (Inl (PredictionFailed ''boom''), [Get ''p1''])"
    by code_simp
  from c9 [of "job ''failed''" "''p1''" failing_service None None "[]"]
  have "wait failing_service (job ''failed'') None None [] = Some (Inr (job ''failed''), [])"
    by (simp add: job_def)
  moreover
  from c9 [of "job ''starting''" _ failing_service None None "[]" "''boom''" "[Get ''p1'']"]
       raised
  have "\<exists>i k p. prediction_id (job ''starting'') = Some i \<and> k < gets [Get ''p1'']
         \<and> get_answer failing_service k i = Inr p \<and> status p = ''failed''
         \<and> error p = ''boom''"
    by blast
  ultimately show ?thesis using raised by blast
qed

text \<open>
  The loop under the stop callback of \<open>run\<close>, from the record that GET number \<open>j\<close>
  answered with, when the signal is first found aborted at the tick after GET number
  \<open>n\<close>: the GETs up to number \<open>n\<close>, one cancellation request, and the end.
\<close>

lemma wait_loop_abort:
  assumes answers: "\<forall>k. j < k \<and> k \<le> n \<longrightarrow> get_answer S k i = Inr (polled k)"
    and running: "\<forall>k. j \<le> k \<and> k \<le> n \<longrightarrow> \<not> terminal (status (polled k))"
    and quiet: "\<forall>k. j \<le> k \<and> k < n \<longrightarrow> \<not> aborted S (Suc k)"
    and fires: "aborted S (Suc n)"
    and le: "j \<le> n"
    and count: "gets trace = Suc j"
  shows "\<exists>trace'. wait_loop S (Some (run_stop S progress True)) ms i (polled j) trace
             = Some (case cancel_answer S (prediction_id (polled n)) of
                       Inl msg \<Rightarrow> Inl (ExternalError msg)
                     | Inr _ \<Rightarrow> Inr (polled n), trace')
           \<and> filter is_network trace'
             = filter is_network trace @ replicate (n - j) (Get i)
                 @ [Cancel (prediction_id (polled n))]"
  using assms
proof (induction "n - j" arbitrary: j trace)
  case 0
  then have j: "j = n" by simp
  from "0.prems"(2) j have nt: "\<not> terminal (status (polled n))" by simp
  then have al: "after_loop (polled n) = Inr (polled n)"
    by (simp add: after_loop_def terminal_def)
  show ?case
    using nt al "0.prems"(4,6) j
    by (subst wait_loop.simps)
       (simp add: terminal_def run_stop_def split: sum.splits)
next
  case (Suc d)
  then have lt: "j < n" and d: "d = n - Suc j" by simp_all
  from Suc.prems(2) lt have nt: "\<not> terminal (status (polled j))" by simp
  from Suc.prems(3) lt have na: "\<not> aborted S (Suc j)" by simp
  from Suc.prems(1) lt have ans: "get_answer S (Suc j) i = Inr (polled (Suc j))" by simp
  let ?caused = "if progress then [Progress (polled j)] else []"
  let ?tr = "(trace @ ?caused @ [Sleep_ms ms]) @ [Get i]"
  let ?end = "case cancel_answer S (prediction_id (polled n)) of
                Inl msg \<Rightarrow> Inl (ExternalError msg)
              | Inr _ \<Rightarrow> Inr (polled n)"
  have cnt: "gets ?tr = Suc (Suc j)" using Suc.prems(6) by simp
  have "\<exists>trace'. wait_loop S (Some (run_stop S progress True)) ms i (polled (Suc j)) ?tr
             = Some (?end, trace')
           \<and> filter is_network trace'
             = filter is_network ?tr @ replicate (n - Suc j) (Get i)
                 @ [Cancel (prediction_id (polled n))]"
    using Suc.prems lt by (intro Suc.hyps(1)[OF d _ _ _ _ _ cnt]) auto
  then obtain trace' where
    rec: "wait_loop S (Some (run_stop S progress True)) ms i (polled (Suc j)) ?tr
             = Some (?end, trace')"
    and net: "filter is_network trace'
             = filter is_network ?tr @ replicate (n - Suc j) (Get i)
                 @ [Cancel (prediction_id (polled n))]"
    by blast
  have step: "wait_loop S (Some (run_stop S progress True)) ms i (polled j) trace
      = wait_loop S (Some (run_stop S progress True)) ms i (polled (Suc j)) ?tr"
    using nt na ans Suc.prems(6)
    by (subst wait_loop.simps) (simp add: terminal_def run_stop_def Let_def)
  have "n - j = Suc (n - Suc j)" using lt by simp
  then have "filter is_network trace'
      = filter is_network trace @ replicate (n - j) (Get i)
          @ [Cancel (prediction_id (polled n))]"
    using net by simp
  with step rec show ?case by simp
qed

text \<open>
  Claim C8.  In \<open>run\<close> with a signal: the job is created with a non-empty \<open>id\<close> and a
  status that is not terminal, the GETs number 0 to \<open>n\<close> answer with records that are
  not terminal, and the signal is found aborted at the tick after GET number \<open>n\<close> and at
  no earlier tick.  Then \<open>run\<close> ends, and its network calls are, in order: the creation,
  the \<open>n + 1\<close> GETs, and one cancellation request for the latest record.  No GET follows
  the cancellation, and there is no second cancellation.  The call throws what the
  cancellation request threw, or returns the output of the latest record.
\<close>

theorem run_abort_cancels_once:
  assumes "nonempty (version ident) \<or> (nonempty (owner ident) \<and> nonempty (name ident))"
    and "create_answer S = Inr created"
    and "prediction_id created = Some i" and "i \<noteq> []"
    and "\<not> terminal (status created)"
    and "\<forall>k. k \<le> n \<longrightarrow> get_answer S k i = Inr (polled k) \<and> \<not> terminal (status (polled k))"
    and "\<forall>k. k < n \<longrightarrow> \<not> aborted S (Suc k)"
    and "aborted S (Suc n)"
  shows "\<exists>trace. run S ident opt_ms True progress = Some (stopped_result S (polled n), trace)
           \<and> filter is_network trace
               = Create # replicate (Suc n) (Get i) @ [Cancel (prediction_id (polled n))]"
proof -
  let ?t0 = "[Create] @ (if progress then [Progress created] else [])"
  let ?ms = "or_default opt_ms 500"
  let ?stop = "Some (run_stop S progress True)"
  from assms(6) have a0: "get_answer S 0 i = Inr (polled 0)" by simp
  have w: "wait S created opt_ms ?stop ?t0 = wait_loop S ?stop ?ms i (polled 0) (?t0 @ [Get i])"
    using assms(3,4,5) a0 by (simp add: wait_def terminal_def Let_def)
  have "\<exists>trace'. wait_loop S ?stop ?ms i (polled 0) (?t0 @ [Get i])
             = Some (case cancel_answer S (prediction_id (polled n)) of
                       Inl msg \<Rightarrow> Inl (ExternalError msg)
                     | Inr _ \<Rightarrow> Inr (polled n), trace')
           \<and> filter is_network trace'
             = filter is_network (?t0 @ [Get i]) @ replicate (n - 0) (Get i)
                 @ [Cancel (prediction_id (polled n))]"
    using assms(6,7,8) by (intro wait_loop_abort) auto
  then obtain trace' where
    loop: "wait_loop S ?stop ?ms i (polled 0) (?t0 @ [Get i])
             = Some (case cancel_answer S (prediction_id (polled n)) of
                       Inl msg \<Rightarrow> Inl (ExternalError msg)
                     | Inr _ \<Rightarrow> Inr (polled n), trace')"
    and net: "filter is_network trace'
             = Create # replicate (Suc n) (Get i) @ [Cancel (prediction_id (polled n))]"
    by (auto simp: replicate_append_same)
  from assms(6) have nf: "status (polled n) \<noteq> ''failed''"
    by (auto simp: terminal_def)
  show ?thesis
  proof (cases "cancel_answer S (prediction_id (polled n))")
    case (Inl msg)
    with assms(1,2) w loop net show ?thesis
      by (simp add: run_def stopped_result_def)
  next
    case (Inr p)
    with assms(1,2) w loop net nf show ?thesis
      by (simp add: run_def stopped_result_def)
  qed
qed

theorem run_abort_cancels_once_witness:
  "\<exists>trace. run slow_service by_version None True True = Some (Inr ''out'', trace)
     \<and> filter is_network trace = [Create, Get ''p1'', Get ''p1'', Cancel (Some ''p1'')]"
proof -
  have "\<exists>trace. run slow_service by_version None True True
            = Some (stopped_result slow_service ((\<lambda>k. job ''processing'') (1::nat)), trace)
           \<and> filter is_network trace
               = Create # replicate (Suc 1) (Get ''p1'')
                   @ [Cancel (prediction_id ((\<lambda>k. job ''processing'') (1::nat)))]"
    by (rule run_abort_cancels_once [where created = "job ''starting''"])
       (simp_all add: slow_service_def by_version_def job_def nonempty_def terminal_def)
  then show ?thesis
    by (simp add: stopped_result_def slow_service_def job_def)
qed

end
